theory Spec2Isabelle
  imports Main
begin

section \<open>The page: the divider, its two sibling panels and the document\<close>

text \<open>
  The component renders three adjacent elements: the code-editor section, the divider
  (\<open>resizerRef\<close>) and the split-view container. The resizer effect of \<open>App\<close> touches only
  \<^item> the \<open>style\<close> attribute of the divider's two siblings (\<open>setAttribute("style", ...)\<close>),
  \<^item> the rendered width of the previous sibling (\<open>getBoundingClientRect().width\<close>),
  \<^item> \<open>window.innerWidth\<close>,
  \<^item> the \<open>mousedown\<close> listeners of the divider and the \<open>mousemove\<close>/\<open>mouseup\<close> listeners
    of the document,
  \<^item> its two closure variables \<open>startX\<close> and \<open>startWidth\<close>.

  Numbers are kept abstract (\<open>'n\<close>): the handlers only add and subtract them and print
  them into a template literal, so the printing function of the runtime is a parameter
  \<open>toStr\<close> of the model. The rendered width is what the layout engine reports; the model
  never derives it from the \<open>style\<close> attribute.
\<close>

datatype error = TypeError

datatype handler = OnMouseDown | OnMouseMove | OnMouseUp

record 'n element =
  style_attr :: "string option"
  rect_width :: 'n

record 'n resizer_el =
  mousedown_listeners :: "handler list"
  previousElementSibling :: "'n element option"
  nextElementSibling :: "'n element option"

record 'n page =
  resizer :: "'n resizer_el option"
  document_mousemove :: "handler list"
  document_mouseup :: "handler list"
  innerWidth :: 'n
  startX :: 'n
  startWidth :: 'n
  reported :: "error list"

datatype target = Divider | Elsewhere

datatype 'n event = MouseDown target 'n | MouseMove 'n | MouseUp 'n

subsection \<open>The platform calls the handlers use\<close>

text \<open>
  \<open>addEventListener\<close> appends the callback unless the same callback is already registered
  for that event type; \<open>removeEventListener\<close> takes it out and does nothing when it is
  not there. \<open>setAttribute("style", v)\<close> replaces the whole attribute.
\<close>

definition addEventListener :: "handler \<Rightarrow> handler list \<Rightarrow> handler list" where
  "addEventListener h ls = (if h \<in> set ls then ls else ls @ [h])"

definition removeEventListener :: "handler \<Rightarrow> handler list \<Rightarrow> handler list" where
  "removeEventListener h ls = removeAll h ls"

definition setAttribute_style :: "string \<Rightarrow> 'n element \<Rightarrow> 'n element" where
  "setAttribute_style v el = el\<lparr>style_attr := Some v\<rparr>"

subsection \<open>The three closures of the resizer effect\<close>

text \<open>
  Each closure returns the exception it throws, if any, together with the page as it is
  at that moment: what was assigned before a throw stays assigned. The non-null
  assertions (\<open>resizer!\<close>, \<open>previousElementSibling!\<close>, \<open>nextElementSibling!\<close>) are erased
  by the compiler, so reading a property of \<open>null\<close> throws a \<open>TypeError\<close>.
\<close>

definition onMouseDown :: "'n \<Rightarrow> 'n page \<Rightarrow> error option \<times> 'n page" where
  "onMouseDown clientX s =
     (let s1 = s\<lparr>startX := clientX\<rparr> in
      case resizer s1 of
        None \<Rightarrow> (Some TypeError, s1)
      | Some r \<Rightarrow>
          (case previousElementSibling r of
             None \<Rightarrow> (Some TypeError, s1)
           | Some p \<Rightarrow>
               (let s2 = s1\<lparr>startWidth := rect_width p\<rparr>;
                    s3 = s2\<lparr>document_mousemove :=
                              addEventListener OnMouseMove (document_mousemove s2)\<rparr>;
                    s4 = s3\<lparr>document_mouseup :=
                              addEventListener OnMouseUp (document_mouseup s3)\<rparr>
                in (None, s4))))"

definition onMouseMove ::
  "('n \<Rightarrow> string) \<Rightarrow> ('n::{minus,numeral}) \<Rightarrow> 'n page \<Rightarrow> error option \<times> 'n page" where
  "onMouseMove toStr clientX s =
     (let newWidth = startWidth s + (clientX - startX s) in
      case resizer s of
        None \<Rightarrow> (Some TypeError, s)
      | Some r \<Rightarrow>
          (case previousElementSibling r of
             None \<Rightarrow> (Some TypeError, s)
           | Some p \<Rightarrow>
               (let r1 = r\<lparr>previousElementSibling :=
                            Some (setAttribute_style
                                    (''width: '' @ toStr newWidth @ ''px'') p)\<rparr>;
                    s1 = s\<lparr>resizer := Some r1\<rparr>
                in case nextElementSibling r1 of
                     None \<Rightarrow> (Some TypeError, s1)
                   | Some q \<Rightarrow>
                       (let r2 = r1\<lparr>nextElementSibling :=
                                    Some (setAttribute_style
                                            (''flex: 1 1 ''
                                               @ toStr (innerWidth s1 - newWidth - 10)
                                               @ ''px'') q)\<rparr>
                        in (None, s1\<lparr>resizer := Some r2\<rparr>)))))"

definition onMouseUp :: "'n page \<Rightarrow> error option \<times> 'n page" where
  "onMouseUp s =
     (let s1 = s\<lparr>document_mousemove :=
                  removeEventListener OnMouseMove (document_mousemove s)\<rparr>;
          s2 = s1\<lparr>document_mouseup :=
                   removeEventListener OnMouseUp (document_mouseup s1)\<rparr>
      in (None, s2))"

subsection \<open>The effect body and its cleanup\<close>

definition useEffect_resizer :: "('n::zero) page \<Rightarrow> error option \<times> 'n page" where
  "useEffect_resizer s =
     (let s1 = s\<lparr>startX := 0, startWidth := 0\<rparr> in
      case resizer s1 of
        None \<Rightarrow> (Some TypeError, s1)
      | Some r \<Rightarrow>
          (None, s1\<lparr>resizer := Some (r\<lparr>mousedown_listeners :=
                        addEventListener OnMouseDown (mousedown_listeners r)\<rparr>)\<rparr>))"

definition useEffect_resizer_cleanup :: "'n page \<Rightarrow> error option \<times> 'n page" where
  "useEffect_resizer_cleanup s =
     (case resizer s of
        None \<Rightarrow> (Some TypeError, s)
      | Some r \<Rightarrow>
          (None, s\<lparr>resizer := Some (r\<lparr>mousedown_listeners :=
                       removeEventListener OnMouseDown (mousedown_listeners r)\<rparr>)\<rparr>))"

subsection \<open>Event dispatch\<close>

text \<open>
  The browser calls the listeners registered for the event's type, in registration
  order, over a snapshot of the list taken when dispatch starts; a listener removed by
  an earlier one is skipped. An exception thrown by a listener is reported and does not
  stop the dispatch. A \<open>mousedown\<close> reaches the divider's listeners only when the pointer
  is over the divider; \<open>mousemove\<close> and \<open>mouseup\<close> bubble to the document from anywhere.
\<close>

definition clientX :: "'n event \<Rightarrow> 'n" where
  "clientX e = (case e of MouseDown t x \<Rightarrow> x | MouseMove x \<Rightarrow> x | MouseUp x \<Rightarrow> x)"

definition listeners_for :: "'n event \<Rightarrow> 'n page \<Rightarrow> handler list" where
  "listeners_for e s =
     (case e of
        MouseDown Divider x \<Rightarrow>
          (case resizer s of None \<Rightarrow> [] | Some r \<Rightarrow> mousedown_listeners r)
      | MouseDown Elsewhere x \<Rightarrow> []
      | MouseMove x \<Rightarrow> document_mousemove s
      | MouseUp x \<Rightarrow> document_mouseup s)"

definition invoke ::
  "('n \<Rightarrow> string) \<Rightarrow> handler \<Rightarrow> ('n::{minus,numeral}) event \<Rightarrow> 'n page
     \<Rightarrow> error option \<times> 'n page" where
  "invoke toStr h e s =
     (case h of
        OnMouseDown \<Rightarrow> onMouseDown (clientX e) s
      | OnMouseMove \<Rightarrow> onMouseMove toStr (clientX e) s
      | OnMouseUp \<Rightarrow> onMouseUp s)"

definition report :: "error option \<times> 'n page \<Rightarrow> 'n page" where
  "report r = (case r of (None, s) \<Rightarrow> s
                       | (Some err, s) \<Rightarrow> s\<lparr>reported := reported s @ [err]\<rparr>)"

fun fire ::
  "('n \<Rightarrow> string) \<Rightarrow> handler list \<Rightarrow> ('n::{minus,numeral}) event \<Rightarrow> 'n page \<Rightarrow> 'n page" where
  "fire toStr [] e s = s"
| "fire toStr (h # hs) e s =
     (if h \<in> set (listeners_for e s)
      then fire toStr hs e (report (invoke toStr h e s))
      else fire toStr hs e s)"

definition dispatchEvent ::
  "('n \<Rightarrow> string) \<Rightarrow> ('n::{minus,numeral}) event \<Rightarrow> 'n page \<Rightarrow> 'n page" where
  "dispatchEvent toStr e s = fire toStr (listeners_for e s) e s"

fun run :: "('n \<Rightarrow> string) \<Rightarrow> ('n::{minus,numeral}) event list \<Rightarrow> 'n page \<Rightarrow> 'n page" where
  "run toStr [] s = s"
| "run toStr (e # es) s = run toStr es (dispatchEvent toStr e s)"

subsection \<open>What the claims observe\<close>

definition left_style :: "'n page \<Rightarrow> string option" where
  "left_style s =
     (case resizer s of
        None \<Rightarrow> None
      | Some r \<Rightarrow> (case previousElementSibling r of None \<Rightarrow> None | Some p \<Rightarrow> style_attr p))"

definition right_style :: "'n page \<Rightarrow> string option" where
  "right_style s =
     (case resizer s of
        None \<Rightarrow> None
      | Some r \<Rightarrow> (case nextElementSibling r of None \<Rightarrow> None | Some q \<Rightarrow> style_attr q))"

definition left_rect_width :: "'n page \<Rightarrow> 'n option" where
  "left_rect_width s =
     (case resizer s of
        None \<Rightarrow> None
      | Some r \<Rightarrow>
          (case previousElementSibling r of None \<Rightarrow> None | Some p \<Rightarrow> Some (rect_width p)))"

definition has_right :: "'n page \<Rightarrow> bool" where
  "has_right s =
     (case resizer s of
        None \<Rightarrow> False
      | Some r \<Rightarrow> (case nextElementSibling r of None \<Rightarrow> False | Some q \<Rightarrow> True))"

definition divider_listeners :: "'n page \<Rightarrow> handler list" where
  "divider_listeners s = (case resizer s of None \<Rightarrow> [] | Some r \<Rightarrow> mousedown_listeners r)"

text \<open>
  A drag session is active exactly while the two temporary document listeners are
  installed; the controller is attached while its \<open>mousedown\<close> listener is on the
  divider.
\<close>

definition dragging :: "'n page \<Rightarrow> bool" where
  "dragging s = (document_mousemove s = [OnMouseMove] \<and> document_mouseup s = [OnMouseUp])"

definition idle :: "'n page \<Rightarrow> bool" where
  "idle s = (document_mousemove s = [] \<and> document_mouseup s = [])"

definition attached :: "'n page \<Rightarrow> bool" where
  "attached s = (divider_listeners s = [OnMouseDown])"

definition detached :: "'n page \<Rightarrow> bool" where
  "detached s = (divider_listeners s = [])"

text \<open>
  The listener configurations the effect can produce from a page on which it has
  installed nothing yet.
\<close>

definition listeners_ok :: "'n page \<Rightarrow> bool" where
  "listeners_ok s = ((attached s \<or> detached s) \<and> (idle s \<or> dragging s))"

text \<open>
  Event sequences are classified by whether they contain a pointer-down over the divider
  and whether they contain a pointer-up.
\<close>

fun divider_down :: "'n event \<Rightarrow> bool" where
  "divider_down (MouseDown Divider x) = True"
| "divider_down (MouseDown Elsewhere x) = False"
| "divider_down (MouseMove x) = False"
| "divider_down (MouseUp x) = False"

fun pointer_up :: "'n event \<Rightarrow> bool" where
  "pointer_up (MouseUp x) = True"
| "pointer_up (MouseDown t x) = False"
| "pointer_up (MouseMove x) = False"

definition no_divider_down :: "'n event list \<Rightarrow> bool" where
  "no_divider_down es = (filter divider_down es = [])"

definition no_pointer_up :: "'n event list \<Rightarrow> bool" where
  "no_pointer_up es = (filter pointer_up es = [])"

subsection \<open>Printing integers\<close>

text \<open>
  For an integral number the template literal prints its decimal digits, with a leading
  minus sign when it is negative. The concrete scenarios below use it as \<open>toStr\<close>.
\<close>

fun nat_toString :: "nat \<Rightarrow> string" where
  "nat_toString n =
     (if n < 10 then [''0123456789'' ! n]
      else nat_toString (n div 10) @ [''0123456789'' ! (n mod 10)])"

declare nat_toString.simps [simp del]

definition int_toString :: "int \<Rightarrow> string" where
  "int_toString i = (if i < 0 then ''-'' @ nat_toString (nat (- i)) else nat_toString (nat i))"

section \<open>The style change handler\<close>

text \<open>
  \<open>onCodeEditorChange\<close> logs the value it receives, returns when that value is falsy and
  stores it otherwise. The value the editor passes is a style document, \<open>null\<close> or
  \<open>undefined\<close>.
\<close>

datatype 'a js_value = Undefined | Null | Object 'a

fun falsy :: "'a js_value \<Rightarrow> bool" where
  "falsy Undefined = True"
| "falsy Null = True"
| "falsy (Object v) = False"

record 'a app_state =
  style :: "'a js_value"
  console :: "'a js_value list"

definition setStyle :: "'a js_value \<Rightarrow> 'a app_state \<Rightarrow> 'a app_state" where
  "setStyle v a = a\<lparr>style := v\<rparr>"

definition onCodeEditorChange :: "'a js_value \<Rightarrow> 'a app_state \<Rightarrow> 'a app_state" where
  "onCodeEditorChange newStyle a =
     (let a1 = a\<lparr>console := console a @ [newStyle]\<rparr> in
      if falsy newStyle then a1 else setStyle newStyle a1)"

section \<open>Concrete pages\<close>

text \<open>
  The page of the specification's scenario before the effect runs: viewport 1200 wide,
  left panel rendered 300 wide, nothing installed. \<open>mounted_page\<close> is that page after
  the effect has run.
\<close>

definition scenario_page :: "int page" where
  "scenario_page =
     \<lparr>resizer = Some \<lparr>mousedown_listeners = [],
                        previousElementSibling = Some \<lparr>style_attr = None, rect_width = 300\<rparr>,
                        nextElementSibling = Some \<lparr>style_attr = None, rect_width = 890\<rparr>\<rparr>,
      document_mousemove = [], document_mouseup = [],
      innerWidth = 1200, startX = 0, startWidth = 0, reported = []\<rparr>"

definition mounted_page :: "int page" where
  "mounted_page = snd (useEffect_resizer scenario_page)"

text \<open>
  \<open>dragging_page\<close> is the scenario in the middle of the drag, after the move to 350.
  On \<open>page_with_stale_style\<close> the left panel still carries the width written by an earlier
  drag, but the layout renders it 412 wide.
\<close>

definition page_with_stale_style :: "int page" where
  "page_with_stale_style =
     \<lparr>resizer = Some \<lparr>mousedown_listeners = [OnMouseDown],
                        previousElementSibling =
                          Some \<lparr>style_attr = Some ''width: 280px'', rect_width = 412\<rparr>,
                        nextElementSibling =
                          Some \<lparr>style_attr = Some ''flex: 1 1 910px'', rect_width = 778\<rparr>\<rparr>,
      document_mousemove = [], document_mouseup = [],
      innerWidth = 1200, startX = 300, startWidth = 300, reported = []\<rparr>"

definition dragging_page :: "int page" where
  "dragging_page =
     \<lparr>resizer = Some \<lparr>mousedown_listeners = [OnMouseDown],
                        previousElementSibling =
                          Some \<lparr>style_attr = Some ''width: 350px'', rect_width = 350\<rparr>,
                        nextElementSibling =
                          Some \<lparr>style_attr = Some ''flex: 1 1 840px'', rect_width = 840\<rparr>\<rparr>,
      document_mousemove = [OnMouseMove], document_mouseup = [OnMouseUp],
      innerWidth = 1200, startX = 300, startWidth = 300, reported = []\<rparr>"

section \<open>How events are dispatched in each configuration\<close>

lemma fire_single:
  "fire toStr [h] e s = (if h \<in> set (listeners_for e s) then report (invoke toStr h e s) else s)"
  by simp

lemma dispatch_down_elsewhere: "dispatchEvent toStr (MouseDown Elsewhere x) s = s"
  by (simp add: dispatchEvent_def listeners_for_def)

lemma dispatch_down_detached:
  "detached s \<Longrightarrow> dispatchEvent toStr (MouseDown t x) s = s"
  by (cases t) (simp_all add: dispatchEvent_def listeners_for_def detached_def divider_listeners_def)

lemma dispatch_down_attached:
  "attached s \<Longrightarrow> dispatchEvent toStr (MouseDown Divider x) s = report (onMouseDown x s)"
  by (simp add: dispatchEvent_def listeners_for_def attached_def divider_listeners_def
      invoke_def clientX_def)

lemma dispatch_move_idle: "idle s \<Longrightarrow> dispatchEvent toStr (MouseMove x) s = s"
  by (simp add: dispatchEvent_def listeners_for_def idle_def)

lemma dispatch_up_idle: "idle s \<Longrightarrow> dispatchEvent toStr (MouseUp x) s = s"
  by (simp add: dispatchEvent_def listeners_for_def idle_def)

lemma dispatch_move_dragging:
  "dragging s \<Longrightarrow> dispatchEvent toStr (MouseMove x) s = report (onMouseMove toStr x s)"
  by (simp add: dispatchEvent_def listeners_for_def dragging_def invoke_def clientX_def)

lemma dispatch_up_dragging:
  "dragging s \<Longrightarrow> dispatchEvent toStr (MouseUp x) s = report (onMouseUp s)"
  by (simp add: dispatchEvent_def listeners_for_def dragging_def invoke_def clientX_def)

subsection \<open>What each closure changes and what it leaves alone\<close>

lemma move_keeps:
  "document_mousemove (report (onMouseMove toStr x s)) = document_mousemove s"
  "document_mouseup (report (onMouseMove toStr x s)) = document_mouseup s"
  "startX (report (onMouseMove toStr x s)) = startX s"
  "startWidth (report (onMouseMove toStr x s)) = startWidth s"
  "innerWidth (report (onMouseMove toStr x s)) = innerWidth s"
  "divider_listeners (report (onMouseMove toStr x s)) = divider_listeners s"
  "left_rect_width (report (onMouseMove toStr x s)) = left_rect_width s"
  "has_right (report (onMouseMove toStr x s)) = has_right s"
  by (auto simp add: onMouseMove_def report_def Let_def divider_listeners_def left_rect_width_def
      has_right_def setAttribute_style_def split: option.splits)

lemma move_left_style:
  "left_rect_width s = Some w \<Longrightarrow>
   left_style (report (onMouseMove toStr x s)) =
     Some (''width: '' @ toStr (startWidth s + (x - startX s)) @ ''px'')"
  by (auto simp add: onMouseMove_def report_def Let_def left_rect_width_def left_style_def
      setAttribute_style_def split: option.splits)

lemma move_right_style:
  "left_rect_width s = Some w \<Longrightarrow> has_right s \<Longrightarrow>
   right_style (report (onMouseMove toStr x s)) =
     Some (''flex: 1 1 '' @ toStr (innerWidth s - (startWidth s + (x - startX s)) - 10) @ ''px'')"
  by (auto simp add: onMouseMove_def report_def Let_def left_rect_width_def right_style_def has_right_def
      setAttribute_style_def split: option.splits)

lemma move_reports_nothing:
  "left_rect_width s = Some w \<Longrightarrow> has_right s \<Longrightarrow>
   reported (report (onMouseMove toStr x s)) = reported s"
  by (auto simp add: onMouseMove_def report_def Let_def left_rect_width_def right_style_def has_right_def
      setAttribute_style_def split: option.splits)

lemma up_keeps:
  "report (onMouseUp s) = s\<lparr>document_mousemove := removeAll OnMouseMove (document_mousemove s),
                            document_mouseup := removeAll OnMouseUp (document_mouseup s)\<rparr>"
  by (simp add: onMouseUp_def report_def Let_def removeEventListener_def)

lemma up_dragging: "dragging s \<Longrightarrow> idle (report (onMouseUp s))"
  by (simp add: up_keeps dragging_def idle_def)

lemma up_observed:
  "left_style (report (onMouseUp s)) = left_style s"
  "right_style (report (onMouseUp s)) = right_style s"
  "startX (report (onMouseUp s)) = startX s"
  "startWidth (report (onMouseUp s)) = startWidth s"
  "divider_listeners (report (onMouseUp s)) = divider_listeners s"
  "left_rect_width (report (onMouseUp s)) = left_rect_width s"
  "reported (report (onMouseUp s)) = reported s"
  by (simp_all add: up_keeps left_style_def right_style_def divider_listeners_def left_rect_width_def)

lemma down_ok:
  "left_rect_width s = Some w \<Longrightarrow>
   report (onMouseDown x s) =
     s\<lparr>startX := x, startWidth := w,
       document_mousemove := addEventListener OnMouseMove (document_mousemove s),
       document_mouseup := addEventListener OnMouseUp (document_mouseup s)\<rparr>"
  by (auto simp add: onMouseDown_def report_def Let_def left_rect_width_def split: option.splits)

lemma down_keeps:
  "divider_listeners (report (onMouseDown x s)) = divider_listeners s"
  "left_rect_width (report (onMouseDown x s)) = left_rect_width s"
  "left_style (report (onMouseDown x s)) = left_style s"
  "right_style (report (onMouseDown x s)) = right_style s"
  "has_right (report (onMouseDown x s)) = has_right s"
  "startX (report (onMouseDown x s)) = x"
  by (auto simp add: onMouseDown_def report_def Let_def divider_listeners_def left_rect_width_def
      left_style_def right_style_def has_right_def split: option.splits)

lemma down_session:
  "idle s \<or> dragging s \<Longrightarrow>
   (if left_rect_width s = None then document_mousemove (report (onMouseDown x s)) = document_mousemove s
      \<and> document_mouseup (report (onMouseDown x s)) = document_mouseup s
    else dragging (report (onMouseDown x s)))"
  by (auto simp add: onMouseDown_def report_def Let_def left_rect_width_def idle_def dragging_def
      addEventListener_def split: option.splits)

subsection \<open>The listener configurations are preserved\<close>

lemma listeners_ok_down:
  assumes "listeners_ok s"
  shows "listeners_ok (dispatchEvent toStr (MouseDown t x) s)"
proof (cases t)
  case Elsewhere
  with assms show ?thesis by (simp add: dispatch_down_elsewhere)
next
  case Divider
  show ?thesis
  proof (cases "attached s")
    case False
    with assms have "detached s" by (simp add: listeners_ok_def)
    with assms show ?thesis by (simp add: dispatch_down_detached)
  next
    case True
    from assms have session: "idle s \<or> dragging s" by (simp add: listeners_ok_def)
    have "idle (report (onMouseDown x s)) \<or> dragging (report (onMouseDown x s))"
      using down_session [OF session, of x] session
      by (auto simp add: idle_def dragging_def split: if_splits)
    moreover have "attached (report (onMouseDown x s))"
      using True by (simp add: attached_def down_keeps)
    ultimately show ?thesis
      using True Divider by (simp add: dispatch_down_attached listeners_ok_def)
  qed
qed

lemma listeners_ok_move:
  assumes "listeners_ok s"
  shows "listeners_ok (dispatchEvent toStr (MouseMove x) s)"
proof (cases "idle s")
  case True
  with assms show ?thesis by (simp add: dispatch_move_idle)
next
  case False
  with assms have "dragging s" by (simp add: listeners_ok_def)
  with assms show ?thesis
    by (simp add: dispatch_move_dragging listeners_ok_def attached_def detached_def idle_def
        dragging_def move_keeps)
qed

lemma listeners_ok_up:
  assumes "listeners_ok s"
  shows "listeners_ok (dispatchEvent toStr (MouseUp x) s)"
proof (cases "idle s")
  case True
  with assms show ?thesis by (simp add: dispatch_up_idle)
next
  case False
  with assms have d: "dragging s" by (simp add: listeners_ok_def)
  from assms have "attached (report (onMouseUp s)) \<or> detached (report (onMouseUp s))"
    by (simp add: listeners_ok_def attached_def detached_def up_observed)
  with d show ?thesis
    by (simp add: dispatch_up_dragging listeners_ok_def up_dragging)
qed

lemma listeners_ok_dispatch:
  "listeners_ok s \<Longrightarrow> listeners_ok (dispatchEvent toStr e s)"
  by (cases e) (simp_all add: listeners_ok_down listeners_ok_move listeners_ok_up)

lemma listeners_ok_run:
  "listeners_ok s \<Longrightarrow> listeners_ok (run toStr es s)"
  by (induction es arbitrary: s) (simp_all add: listeners_ok_dispatch)

subsection \<open>The effect and its cleanup\<close>

lemma effect_attaches:
  "detached s \<or> attached s \<Longrightarrow> resizer s \<noteq> None \<Longrightarrow> attached (snd (useEffect_resizer s))"
  by (auto simp add: useEffect_resizer_def attached_def detached_def divider_listeners_def
      addEventListener_def Let_def split: option.splits)

lemma effect_keeps:
  "document_mousemove (snd (useEffect_resizer s)) = document_mousemove s"
  "document_mouseup (snd (useEffect_resizer s)) = document_mouseup s"
  "left_rect_width (snd (useEffect_resizer s)) = left_rect_width s"
  "left_style (snd (useEffect_resizer s)) = left_style s"
  "right_style (snd (useEffect_resizer s)) = right_style s"
  by (auto simp add: useEffect_resizer_def Let_def left_rect_width_def left_style_def
      right_style_def split: option.splits)

lemma cleanup_detaches:
  "attached s \<or> detached s \<Longrightarrow> detached (snd (useEffect_resizer_cleanup s))"
  by (auto simp add: useEffect_resizer_cleanup_def attached_def detached_def
      divider_listeners_def removeEventListener_def split: option.splits)

lemma cleanup_keeps:
  "document_mousemove (snd (useEffect_resizer_cleanup s)) = document_mousemove s"
  "document_mouseup (snd (useEffect_resizer_cleanup s)) = document_mouseup s"
  "startX (snd (useEffect_resizer_cleanup s)) = startX s"
  "startWidth (snd (useEffect_resizer_cleanup s)) = startWidth s"
  "innerWidth (snd (useEffect_resizer_cleanup s)) = innerWidth s"
  "reported (snd (useEffect_resizer_cleanup s)) = reported s"
  "left_rect_width (snd (useEffect_resizer_cleanup s)) = left_rect_width s"
  "left_style (snd (useEffect_resizer_cleanup s)) = left_style s"
  "right_style (snd (useEffect_resizer_cleanup s)) = right_style s"
  "has_right (snd (useEffect_resizer_cleanup s)) = has_right s"
  by (auto simp add: useEffect_resizer_cleanup_def left_rect_width_def left_style_def
      right_style_def has_right_def split: option.splits)

lemma listeners_ok_effect:
  "listeners_ok s \<Longrightarrow> listeners_ok (snd (useEffect_resizer s))"
  by (auto simp add: useEffect_resizer_def listeners_ok_def attached_def detached_def
      divider_listeners_def addEventListener_def idle_def dragging_def Let_def split: option.splits)

lemma listeners_ok_cleanup:
  "listeners_ok s \<Longrightarrow> listeners_ok (snd (useEffect_resizer_cleanup s))"
  using cleanup_detaches [of s]
  by (simp add: listeners_ok_def idle_def dragging_def cleanup_keeps)

lemma fresh_listeners_ok: "detached s \<Longrightarrow> idle s \<Longrightarrow> listeners_ok s"
  by (simp add: listeners_ok_def)

subsection \<open>Runs of events\<close>

lemma run_append: "run toStr (es @ fs) s = run toStr fs (run toStr es s)"
  by (induction es arbitrary: s) simp_all

lemma moves_keep_session:
  "dragging s \<Longrightarrow>
   dragging (run toStr (map MouseMove xs) s) \<and>
   startX (run toStr (map MouseMove xs) s) = startX s \<and>
   startWidth (run toStr (map MouseMove xs) s) = startWidth s \<and>
   innerWidth (run toStr (map MouseMove xs) s) = innerWidth s \<and>
   divider_listeners (run toStr (map MouseMove xs) s) = divider_listeners s \<and>
   left_rect_width (run toStr (map MouseMove xs) s) = left_rect_width s \<and>
   has_right (run toStr (map MouseMove xs) s) = has_right s"
proof (induction xs arbitrary: s)
  case Nil
  then show ?case by simp
next
  case (Cons x xs)
  let ?s1 = "report (onMouseMove toStr x s)"
  from Cons.prems have d: "dragging ?s1" by (simp add: dragging_def move_keeps)
  from Cons.IH [OF d] Cons.prems show ?case
    by (simp add: dispatch_move_dragging move_keeps)
qed

lemma down_starts_session:
  assumes "attached s" and "idle s" and "left_rect_width s = Some w"
  shows "dispatchEvent toStr (MouseDown Divider x) s =
           s\<lparr>startX := x, startWidth := w,
             document_mousemove := [OnMouseMove], document_mouseup := [OnMouseUp]\<rparr>"
  using assms by (simp add: dispatch_down_attached down_ok idle_def addEventListener_def)

subsection \<open>The concrete pages\<close>

lemma mounted_page_eq:
  "mounted_page =
     \<lparr>resizer = Some \<lparr>mousedown_listeners = [OnMouseDown],
                        previousElementSibling = Some \<lparr>style_attr = None, rect_width = 300\<rparr>,
                        nextElementSibling = Some \<lparr>style_attr = None, rect_width = 890\<rparr>\<rparr>,
      document_mousemove = [], document_mouseup = [],
      innerWidth = 1200, startX = 0, startWidth = 0, reported = []\<rparr>"
  by (simp add: mounted_page_def scenario_page_def useEffect_resizer_def addEventListener_def)

lemma mounted_page_facts:
  "attached mounted_page" "idle mounted_page" "left_rect_width mounted_page = Some 300"
  "has_right mounted_page" "listeners_ok mounted_page"
  by (simp_all add: mounted_page_eq attached_def idle_def left_rect_width_def has_right_def
      divider_listeners_def listeners_ok_def)

lemma int_toString_values:
  "int_toString 280 = ''280''" "int_toString 350 = ''350''" "int_toString 910 = ''910''"
  by (simp_all add: int_toString_def nat_toString.simps)

lemma dragging_page_facts:
  "attached dragging_page" "dragging dragging_page" "left_rect_width dragging_page = Some 350"
  "has_right dragging_page" "listeners_ok dragging_page" "innerWidth dragging_page = 1200"
  "startX dragging_page = 300" "startWidth dragging_page = 300"
  by (simp_all add: dragging_page_def attached_def dragging_def left_rect_width_def has_right_def
      divider_listeners_def listeners_ok_def)

lemma page_with_stale_style_facts:
  "attached page_with_stale_style" "left_rect_width page_with_stale_style = Some 412"
  "left_style page_with_stale_style = Some ''width: 280px''"
  "startWidth page_with_stale_style = 300" "idle page_with_stale_style"
  by (simp_all add: page_with_stale_style_def attached_def divider_listeners_def
      left_rect_width_def left_style_def idle_def)

subsection \<open>Idle and detached controllers\<close>

lemma idle_stays_idle:
  "idle s \<Longrightarrow> no_divider_down es \<Longrightarrow> run toStr es s = s"
proof (induction es)
  case Nil
  then show ?case by simp
next
  case (Cons e es)
  from Cons.prems have e: "\<not> divider_down e" and es: "no_divider_down es"
    by (auto simp add: no_divider_down_def split: if_splits)
  from e Cons.prems(1) have "dispatchEvent toStr e s = s"
    by (cases e rule: divider_down.cases)
       (simp_all add: dispatch_down_elsewhere dispatch_move_idle dispatch_up_idle)
  with Cons.IH [OF Cons.prems(1) es] show ?case by simp
qed

lemma up_ends_session: "listeners_ok s \<Longrightarrow> idle (dispatchEvent toStr (MouseUp u) s)"
  by (cases "idle s") (auto simp add: dispatch_up_idle dispatch_up_dragging up_dragging listeners_ok_def)

lemma dispatch_keeps_divider_listeners:
  assumes "listeners_ok s"
  shows "divider_listeners (dispatchEvent toStr e s) = divider_listeners s"
proof (cases e)
  case (MouseDown t x)
  show ?thesis
  proof (cases "attached s \<and> t = Divider")
    case True
    then show ?thesis using MouseDown by (simp add: dispatch_down_attached down_keeps)
  next
    case False
    with assms have "detached s \<or> t = Elsewhere"
      by (cases t) (auto simp add: listeners_ok_def)
    then show ?thesis using MouseDown
      by (auto simp add: dispatch_down_detached dispatch_down_elsewhere)
  qed
next
  case (MouseMove x)
  with assms show ?thesis
    by (cases "idle s") (auto simp add: listeners_ok_def dispatch_move_idle dispatch_move_dragging move_keeps)
next
  case (MouseUp x)
  with assms show ?thesis
    by (cases "idle s") (auto simp add: listeners_ok_def dispatch_up_idle dispatch_up_dragging up_observed)
qed

lemma run_keeps_divider_listeners:
  "listeners_ok s \<Longrightarrow> divider_listeners (run toStr es s) = divider_listeners s"
  by (induction es arbitrary: s)
     (simp_all add: listeners_ok_dispatch dispatch_keeps_divider_listeners)

lemma detached_session_persists:
  "detached s \<Longrightarrow> dragging s \<Longrightarrow> no_pointer_up es \<Longrightarrow>
   dragging (run toStr es s) \<and> detached (run toStr es s)"
proof (induction es arbitrary: s)
  case Nil
  then show ?case by simp
next
  case (Cons e es)
  from Cons.prems(3) have e: "\<not> pointer_up e" and es: "no_pointer_up es"
    by (auto simp add: no_pointer_up_def split: if_splits)
  have "dragging (dispatchEvent toStr e s) \<and> detached (dispatchEvent toStr e s)"
  proof (cases e)
    case (MouseDown t x)
    with Cons.prems show ?thesis by (simp add: dispatch_down_detached)
  next
    case (MouseMove x)
    with Cons.prems show ?thesis
      by (simp add: dispatch_move_dragging dragging_def detached_def move_keeps)
  next
    case (MouseUp x)
    with e show ?thesis by simp
  qed
  with Cons.IH [OF _ _ es, of "dispatchEvent toStr e s"] show ?case by simp
qed

lemma mounted_listeners_ok:
  "detached s \<Longrightarrow> idle s \<Longrightarrow> listeners_ok (run toStr es (snd (useEffect_resizer s)))"
  by (simp add: fresh_listeners_ok listeners_ok_effect listeners_ok_run)

section \<open>The claims\<close>

text \<open>
  C1. A drag is one pointer-down on the divider at \<open>x0\<close>, with the left panel rendered
  \<open>w\<close> wide, then any pointer-moves \<open>xs\<close>, a last pointer-move at \<open>xl\<close> and a pointer-up.
  Started on an attached, idle controller it leaves the left panel's \<open>style\<close> attribute
  at \<open>width: (w + (xl - x0))px\<close>, whatever \<open>xs\<close> is; the same holds before the
  pointer-up, for every prefix of the moves, and the start values \<open>x0\<close> and \<open>w\<close> are
  still the stored ones at the end, so no move adds to an earlier one.
\<close>

theorem drag_final_width:
  assumes "attached s" and "idle s" and "left_rect_width s = Some w"
  shows
    "left_style (run toStr (MouseDown Divider x0 # map MouseMove xs @ [MouseMove xl, MouseUp u]) s)
       = Some (''width: '' @ toStr (w + (xl - x0)) @ ''px'') \<and>
     left_style (run toStr (MouseDown Divider x0 # map MouseMove xs @ [MouseMove xl]) s)
       = Some (''width: '' @ toStr (w + (xl - x0)) @ ''px'') \<and>
     startX (run toStr (MouseDown Divider x0 # map MouseMove xs @ [MouseMove xl, MouseUp u]) s) = x0 \<and>
     startWidth (run toStr (MouseDown Divider x0 # map MouseMove xs @ [MouseMove xl, MouseUp u]) s) = w \<and>
     idle (run toStr (MouseDown Divider x0 # map MouseMove xs @ [MouseMove xl, MouseUp u]) s)"
proof -
  define s1 where "s1 = dispatchEvent toStr (MouseDown Divider x0) s"
  define s2 where "s2 = run toStr (map MouseMove xs) s1"
  define s3 where "s3 = dispatchEvent toStr (MouseMove xl) s2"
  define s4 where "s4 = dispatchEvent toStr (MouseUp u) s3"
  have s1: "s1 = s\<lparr>startX := x0, startWidth := w,
                   document_mousemove := [OnMouseMove], document_mouseup := [OnMouseUp]\<rparr>"
    unfolding s1_def using assms by (rule down_starts_session)
  have d1: "dragging s1" by (simp add: s1 dragging_def)
  have w1: "left_rect_width s1 = Some w" using assms(3) by (simp add: s1 left_rect_width_def)
  have keep: "dragging s2 \<and> startX s2 = x0 \<and> startWidth s2 = w \<and> left_rect_width s2 = Some w"
    using moves_keep_session [OF d1, of toStr xs] w1 by (simp add: s2_def s1)
  then have s3: "s3 = report (onMouseMove toStr xl s2)"
    by (simp add: s3_def dispatch_move_dragging)
  have style3: "left_style s3 = Some (''width: '' @ toStr (w + (xl - x0)) @ ''px'')"
    using keep move_left_style [of s2 w toStr xl] by (simp add: s3)
  have d3: "dragging s3" using keep by (simp add: s3 dragging_def move_keeps)
  then have s4: "s4 = report (onMouseUp s3)"
    by (simp add: s4_def dispatch_up_dragging)
  have "left_style s4 = Some (''width: '' @ toStr (w + (xl - x0)) @ ''px'')"
    using style3 by (simp add: s4 up_observed)
  moreover have "startX s4 = x0" "startWidth s4 = w"
    using keep by (simp_all add: s4 up_observed s3 move_keeps)
  moreover have "idle s4" using d3 by (simp add: s4 up_dragging)
  moreover have "run toStr (MouseDown Divider x0 # map MouseMove xs @ [MouseMove xl, MouseUp u]) s = s4"
    by (simp add: run_append s1_def s2_def s3_def s4_def)
  moreover have "run toStr (MouseDown Divider x0 # map MouseMove xs @ [MouseMove xl]) s = s3"
    by (simp add: run_append s1_def s2_def s3_def)
  ultimately show ?thesis using style3 by simp
qed

theorem drag_final_width_witness:
  "attached mounted_page \<and> idle mounted_page \<and> left_rect_width mounted_page = Some 300 \<and>
   left_style (run int_toString [MouseDown Divider 300, MouseMove 350, MouseMove 280, MouseUp 280]
                 mounted_page) = Some ''width: 280px''"
  using drag_final_width [of mounted_page 300 int_toString 300 "[350]" 280 280]
  by (simp add: mounted_page_facts int_toString_values)

text \<open>
  C3. On a pointer-move at \<open>x\<close> during a drag session, with both panels present and
  \<open>newWidth = startWidth + (x - startX)\<close>, the left panel's \<open>style\<close> attribute becomes
  \<open>width: newWidth px\<close> and the right panel's becomes
  \<open>flex: 1 1 (innerWidth - newWidth - 10)px\<close>. In particular, with a viewport 1200 wide, a
  move that puts the left width at 280 writes \<open>flex: 1 1 910px\<close> on the right panel.
\<close>

theorem move_assigns_both_panels:
  "(dragging s \<and> left_rect_width s = Some w \<and> has_right s \<longrightarrow>
      left_style (dispatchEvent toStr (MouseMove x) s)
        = Some (''width: '' @ toStr (startWidth s + (x - startX s)) @ ''px'') \<and>
      right_style (dispatchEvent toStr (MouseMove x) s)
        = Some (''flex: 1 1 '' @ toStr (innerWidth s - (startWidth s + (x - startX s)) - 10)
                  @ ''px'')) \<and>
   (dragging t \<and> left_rect_width t = Some v \<and> has_right t \<and> innerWidth t = 1200 \<and>
    startWidth t + (y - startX t) = 280 \<longrightarrow>
      left_style (dispatchEvent int_toString (MouseMove y) t) = Some ''width: 280px'' \<and>
      right_style (dispatchEvent int_toString (MouseMove y) t) = Some ''flex: 1 1 910px'')"
proof -
  have general: "left_style (dispatchEvent f (MouseMove c) p)
        = Some (''width: '' @ f (startWidth p + (c - startX p)) @ ''px'') \<and>
      right_style (dispatchEvent f (MouseMove c) p)
        = Some (''flex: 1 1 '' @ f (innerWidth p - (startWidth p + (c - startX p)) - 10) @ ''px'')"
    if "dragging p" and "left_rect_width p = Some a" and "has_right p"
    for f :: "'b::{minus,numeral} \<Rightarrow> string" and c p a
    using that by (simp add: dispatch_move_dragging move_left_style move_right_style)
  have "left_style (dispatchEvent int_toString (MouseMove y) t) = Some ''width: 280px'' \<and>
      right_style (dispatchEvent int_toString (MouseMove y) t) = Some ''flex: 1 1 910px''"
    if "dragging t" and "left_rect_width t = Some v" and "has_right t" and "innerWidth t = 1200"
      and "startWidth t + (y - startX t) = 280"
    using general [OF that(1,2,3), of int_toString y] that(4,5)
    by (simp add: int_toString_values)
  with general [of s w toStr x] show ?thesis by blast
qed

theorem move_assigns_both_panels_witness:
  "dragging dragging_page \<and> left_rect_width dragging_page = Some 350 \<and> has_right dragging_page \<and>
   innerWidth dragging_page = 1200 \<and> startWidth dragging_page + (280 - startX dragging_page) = 280 \<and>
   left_style (dispatchEvent int_toString (MouseMove 280) dragging_page) = Some ''width: 280px'' \<and>
   right_style (dispatchEvent int_toString (MouseMove 280) dragging_page) = Some ''flex: 1 1 910px''"
  using move_assigns_both_panels [of dragging_page 350 int_toString 280 dragging_page 350 280]
  by (simp add: dragging_page_facts int_toString_values)

text \<open>
  C4. A pointer-up leaves the controller idle, and from then on the events that follow
  change nothing on the page (so neither panel's \<open>style\<close> attribute) as long as none of
  them is a pointer-down over the divider. Equivalently, a pointer-move dispatched on an
  idle controller returns the page as it was.
\<close>

theorem move_after_up_changes_nothing:
  "(listeners_ok s \<and> no_divider_down es \<longrightarrow>
      run toStr (MouseUp u # es) s = dispatchEvent toStr (MouseUp u) s \<and>
      left_style (run toStr (MouseUp u # es) s) = left_style (dispatchEvent toStr (MouseUp u) s) \<and>
      right_style (run toStr (MouseUp u # es) s) = right_style (dispatchEvent toStr (MouseUp u) s)) \<and>
   (idle s \<longrightarrow> dispatchEvent toStr (MouseMove x) s = s)"
proof -
  have "run toStr (MouseUp u # es) s = dispatchEvent toStr (MouseUp u) s"
    if "listeners_ok s" and "no_divider_down es"
    using idle_stays_idle [OF up_ends_session [OF that(1)] that(2)] by simp
  then show ?thesis by (auto simp add: dispatch_move_idle)
qed

theorem move_after_up_changes_nothing_witness:
  "listeners_ok dragging_page \<and> no_divider_down [MouseMove 500, MouseDown Elsewhere 20, MouseMove 90] \<and>
   run int_toString [MouseUp 350, MouseMove 500, MouseDown Elsewhere 20, MouseMove 90] dragging_page
     = dispatchEvent int_toString (MouseUp 350) dragging_page \<and>
   left_style (run int_toString [MouseUp 350, MouseMove 500, MouseDown Elsewhere 20, MouseMove 90] dragging_page)
     = Some ''width: 350px'' \<and>
   idle mounted_page \<and> dispatchEvent int_toString (MouseMove 500) mounted_page = mounted_page"
  using move_after_up_changes_nothing
          [of dragging_page "[MouseMove 500, MouseDown Elsewhere 20, MouseMove 90]" int_toString 350]
        move_after_up_changes_nothing [of mounted_page "[]" int_toString 0 500]
  by (simp add: dragging_page_facts mounted_page_facts no_divider_down_def dispatch_up_dragging
      up_observed) (simp add: left_style_def dragging_page_def)

text \<open>
  C5. A pointer-up with no drag session active returns the page as it was: no width
  changes and nothing is thrown or reported. The pointer-up handler never throws, and a
  second pointer-up after a first changes nothing more.
\<close>

theorem up_without_session_changes_nothing:
  "(idle s \<longrightarrow> dispatchEvent toStr (MouseUp u) s = s \<and> onMouseUp s = (None, s)) \<and>
   (listeners_ok s \<longrightarrow>
      dispatchEvent toStr (MouseUp v) (dispatchEvent toStr (MouseUp u) s)
        = dispatchEvent toStr (MouseUp u) s) \<and>
   fst (onMouseUp s) = None \<and>
   snd (onMouseUp (snd (onMouseUp s))) = snd (onMouseUp s)"
proof -
  have "onMouseUp s = (None, s)" if "idle s"
    using that by (simp add: onMouseUp_def removeEventListener_def idle_def Let_def)
  moreover have "dispatchEvent toStr (MouseUp v) (dispatchEvent toStr (MouseUp u) s)
        = dispatchEvent toStr (MouseUp u) s" if "listeners_ok s"
    using up_ends_session [OF that] by (simp add: dispatch_up_idle)
  moreover have "fst (onMouseUp s) = None"
    by (simp add: onMouseUp_def Let_def)
  moreover have "snd (onMouseUp (snd (onMouseUp s))) = snd (onMouseUp s)"
    by (simp add: onMouseUp_def removeEventListener_def Let_def)
  ultimately show ?thesis by (simp add: dispatch_up_idle)
qed

theorem up_without_session_changes_nothing_witness:
  "idle mounted_page \<and> listeners_ok dragging_page \<and>
   dispatchEvent int_toString (MouseUp 40) mounted_page = mounted_page \<and>
   onMouseUp mounted_page = (None, mounted_page) \<and>
   dispatchEvent int_toString (MouseUp 7) (dispatchEvent int_toString (MouseUp 40) dragging_page)
     = dispatchEvent int_toString (MouseUp 40) dragging_page"
  using up_without_session_changes_nothing [of mounted_page int_toString 40 7]
        up_without_session_changes_nothing [of dragging_page int_toString 40 7]
  by (simp add: mounted_page_facts dragging_page_facts)

text \<open>
  C6. The cleanup of the effect leaves the divider without a pointer-down listener, and
  it stays so: a pointer-down dispatched right after the cleanup, or after any further
  events, returns the page as it was, so no listener is installed, no start value is
  captured and no width changes.
\<close>

theorem down_after_detach_starts_nothing:
  assumes "listeners_ok s"
  shows "detached (snd (useEffect_resizer_cleanup s)) \<and>
         dispatchEvent toStr (MouseDown t x) (snd (useEffect_resizer_cleanup s))
           = snd (useEffect_resizer_cleanup s) \<and>
         dispatchEvent toStr (MouseDown t x) (run toStr es (snd (useEffect_resizer_cleanup s)))
           = run toStr es (snd (useEffect_resizer_cleanup s))"
proof -
  let ?s' = "snd (useEffect_resizer_cleanup s)"
  from assms have d: "detached ?s'" by (simp add: cleanup_detaches listeners_ok_def)
  from assms have ok: "listeners_ok ?s'" by (rule listeners_ok_cleanup)
  from d have "detached (run toStr es ?s')"
    by (simp add: detached_def run_keeps_divider_listeners [OF ok])
  with d show ?thesis by (simp add: dispatch_down_detached)
qed

theorem down_after_detach_starts_nothing_witness:
  "listeners_ok mounted_page \<and>
   detached (snd (useEffect_resizer_cleanup mounted_page)) \<and>
   idle (dispatchEvent int_toString (MouseDown Divider 300) (snd (useEffect_resizer_cleanup mounted_page))) \<and>
   left_style (run int_toString [MouseDown Divider 300, MouseMove 350]
                 (snd (useEffect_resizer_cleanup mounted_page))) = None"
proof -
  let ?s' = "snd (useEffect_resizer_cleanup mounted_page)"
  have ok: "listeners_ok mounted_page" by (rule mounted_page_facts)
  have same: "dispatchEvent int_toString (MouseDown Divider 300) ?s' = ?s'"
    using down_after_detach_starts_nothing [OF ok, of int_toString Divider 300 "[]"] by simp
  have i: "idle ?s'" using mounted_page_facts(2) by (simp add: idle_def cleanup_keeps)
  have "left_style ?s' = None" by (simp add: cleanup_keeps) (simp add: mounted_page_eq left_style_def)
  with same i ok show ?thesis
    using down_after_detach_starts_nothing [OF ok, of int_toString Divider 300 "[]"]
    by (simp add: dispatch_move_idle)
qed

text \<open>
  C7. A pointer-down over the divider at \<open>x\<close>, with the controller attached and the left
  panel rendered \<open>w\<close> wide, stores \<open>startX = x\<close> and \<open>startWidth = w\<close>. The result does not
  depend on the values \<open>startX\<close> and \<open>startWidth\<close> held before, nor on the \<open>style\<close> attribute
  an earlier drag wrote: the witness starts from a panel whose attribute says 280 and
  whose rendered width is 412.
\<close>

theorem down_captures_start_values:
  assumes "attached s" and "left_rect_width s = Some w"
  shows "startX (dispatchEvent toStr (MouseDown Divider x) s) = x \<and>
         startWidth (dispatchEvent toStr (MouseDown Divider x) s) = w \<and>
         dispatchEvent toStr (MouseDown Divider x) (s\<lparr>startX := a, startWidth := b\<rparr>)
           = dispatchEvent toStr (MouseDown Divider x) s"
proof -
  let ?t = "s\<lparr>startX := a, startWidth := b\<rparr>"
  from assms have t: "attached ?t" "left_rect_width ?t = Some w"
    by (simp_all add: attached_def divider_listeners_def left_rect_width_def)
  show ?thesis
    using assms t by (simp add: dispatch_down_attached down_ok)
qed

theorem down_captures_start_values_witness:
  "attached page_with_stale_style \<and> left_rect_width page_with_stale_style = Some 412 \<and>
   left_style page_with_stale_style = Some ''width: 280px'' \<and>
   startWidth page_with_stale_style = 300 \<and>
   startX (dispatchEvent int_toString (MouseDown Divider 415) page_with_stale_style) = 415 \<and>
   startWidth (dispatchEvent int_toString (MouseDown Divider 415) page_with_stale_style) = 412"
  using down_captures_start_values
          [of page_with_stale_style 412 int_toString 415 0 0]
  by (simp add: page_with_stale_style_facts)

text \<open>
  C8. The cleanup of the effect, run during a drag session, does not throw, removes the
  divider's pointer-down listener and leaves the two document listeners in place. They
  stay installed through every later event that is not a pointer-up, and the next
  pointer-up removes them.
\<close>

theorem detach_leaves_document_listeners:
  assumes "dragging s" and "attached s"
  shows "fst (useEffect_resizer_cleanup s) = None \<and>
         detached (snd (useEffect_resizer_cleanup s)) \<and>
         document_mousemove (snd (useEffect_resizer_cleanup s)) = [OnMouseMove] \<and>
         document_mouseup (snd (useEffect_resizer_cleanup s)) = [OnMouseUp] \<and>
         (no_pointer_up es \<longrightarrow>
            document_mousemove (run toStr es (snd (useEffect_resizer_cleanup s))) = [OnMouseMove] \<and>
            document_mouseup (run toStr es (snd (useEffect_resizer_cleanup s))) = [OnMouseUp] \<and>
            idle (run toStr (es @ [MouseUp u]) (snd (useEffect_resizer_cleanup s))))"
proof -
  let ?s' = "snd (useEffect_resizer_cleanup s)"
  from assms(2) have "resizer s \<noteq> None"
    by (auto simp add: attached_def divider_listeners_def split: option.splits)
  then have ok: "fst (useEffect_resizer_cleanup s) = None"
    by (auto simp add: useEffect_resizer_cleanup_def)
  from assms(2) have det: "detached ?s'" by (simp add: cleanup_detaches)
  from assms(1) have drag: "dragging ?s'" by (simp add: dragging_def cleanup_keeps)
  have later: "dragging (run toStr es ?s') \<and> idle (run toStr (es @ [MouseUp u]) ?s')"
    if "no_pointer_up es"
  proof -
    from detached_session_persists [OF det drag that, of toStr]
    have d: "dragging (run toStr es ?s')" by simp
    then show ?thesis by (simp add: run_append dispatch_up_dragging up_dragging)
  qed
  from ok det drag later show ?thesis by (simp add: dragging_def)
qed

theorem detach_leaves_document_listeners_witness:
  "dragging dragging_page \<and> attached dragging_page \<and>
   no_pointer_up [MouseMove 280, MouseDown Divider 280, MouseMove 260] \<and>
   detached (snd (useEffect_resizer_cleanup dragging_page)) \<and>
   document_mousemove (run int_toString [MouseMove 280, MouseDown Divider 280, MouseMove 260]
                         (snd (useEffect_resizer_cleanup dragging_page))) = [OnMouseMove] \<and>
   document_mouseup (run int_toString [MouseMove 280, MouseDown Divider 280, MouseMove 260]
                       (snd (useEffect_resizer_cleanup dragging_page))) = [OnMouseUp] \<and>
   idle (run int_toString [MouseMove 280, MouseDown Divider 280, MouseMove 260, MouseUp 260]
           (snd (useEffect_resizer_cleanup dragging_page)))"
  using detach_leaves_document_listeners
          [of dragging_page "[MouseMove 280, MouseDown Divider 280, MouseMove 260]" int_toString 260]
  by (simp add: dragging_page_facts no_pointer_up_def)

text \<open>
  C9. A pointer-down over the divider at \<open>x\<close> while a drag session is active changes only
  the two start values: the document still has exactly one pointer-move and one
  pointer-up listener (registering a listener that is already registered adds nothing),
  \<open>startX\<close> becomes \<open>x\<close> and \<open>startWidth\<close> the left panel's rendered width \<open>w\<close>, and the next
  pointer-move at \<open>y\<close> writes \<open>width: (w + (y - x))px\<close>.
\<close>

theorem down_while_dragging_recaptures:
  assumes "dragging s" and "attached s" and "left_rect_width s = Some w"
  shows "dispatchEvent toStr (MouseDown Divider x) s = s\<lparr>startX := x, startWidth := w\<rparr> \<and>
         document_mousemove (dispatchEvent toStr (MouseDown Divider x) s) = [OnMouseMove] \<and>
         document_mouseup (dispatchEvent toStr (MouseDown Divider x) s) = [OnMouseUp] \<and>
         left_style (run toStr [MouseDown Divider x, MouseMove y] s)
           = Some (''width: '' @ toStr (w + (y - x)) @ ''px'') \<and>
         addEventListener h (addEventListener h ls) = addEventListener h ls"
proof -
  let ?s' = "s\<lparr>startX := x, startWidth := w\<rparr>"
  have down: "dispatchEvent toStr (MouseDown Divider x) s = ?s'"
    using assms by (simp add: dispatch_down_attached down_ok dragging_def addEventListener_def)
  have d: "dragging ?s'" using assms(1) by (simp add: dragging_def)
  have l: "left_rect_width ?s' = Some w" using assms(3) by (simp add: left_rect_width_def)
  have "left_style (dispatchEvent toStr (MouseMove y) ?s')
          = Some (''width: '' @ toStr (w + (y - x)) @ ''px'')"
    using move_left_style [OF l, of toStr y] d by (simp add: dispatch_move_dragging)
  moreover have "addEventListener h (addEventListener h ls) = addEventListener h ls"
    by (simp add: addEventListener_def)
  ultimately show ?thesis using down assms(1) by (simp add: dragging_def)
qed

theorem down_while_dragging_recaptures_witness:
  "dragging dragging_page \<and> attached dragging_page \<and> left_rect_width dragging_page = Some 350 \<and>
   dispatchEvent int_toString (MouseDown Divider 352) dragging_page
     = dragging_page\<lparr>startX := 352, startWidth := 350\<rparr> \<and>
   document_mousemove (dispatchEvent int_toString (MouseDown Divider 352) dragging_page) = [OnMouseMove] \<and>
   document_mouseup (dispatchEvent int_toString (MouseDown Divider 352) dragging_page) = [OnMouseUp] \<and>
   left_style (run int_toString [MouseDown Divider 352, MouseMove 282] dragging_page)
     = Some ''width: 280px''"
proof -
  note th = down_while_dragging_recaptures
              [OF dragging_page_facts(2) dragging_page_facts(1) dragging_page_facts(3),
               of int_toString 352 282 OnMouseMove "[]"]
  from th have a: "dispatchEvent int_toString (MouseDown Divider 352) dragging_page
     = dragging_page\<lparr>startX := 352, startWidth := 350\<rparr>" by (rule conjunct1)
  from th [THEN conjunct2, THEN conjunct1]
  have b: "document_mousemove (dispatchEvent int_toString (MouseDown Divider 352) dragging_page)
             = [OnMouseMove]" .
  from th [THEN conjunct2, THEN conjunct2, THEN conjunct1]
  have c: "document_mouseup (dispatchEvent int_toString (MouseDown Divider 352) dragging_page)
             = [OnMouseUp]" .
  from th [THEN conjunct2, THEN conjunct2, THEN conjunct2, THEN conjunct1]
  have d: "left_style (run int_toString [MouseDown Divider 352, MouseMove 282] dragging_page)
             = Some ''width: 280px''"
    by (simp add: int_toString_values)
  from a b c d show ?thesis by (simp only: dragging_page_facts simp_thms)
qed

text \<open>
  C10. When the value passed to the style change handler is \<open>null\<close> or \<open>undefined\<close>, the
  handler logs it and returns: the stored style document is unchanged. A style document
  is stored.
\<close>

theorem falsy_style_is_not_stored:
  "style (onCodeEditorChange Null a) = style a \<and>
   style (onCodeEditorChange Undefined a) = style a \<and>
   onCodeEditorChange Null a = a\<lparr>console := console a @ [Null]\<rparr> \<and>
   onCodeEditorChange Undefined a = a\<lparr>console := console a @ [Undefined]\<rparr> \<and>
   style (onCodeEditorChange (Object v) a) = Object v"
  by (simp add: onCodeEditorChange_def setStyle_def Let_def)

end
